theory Spec2Isabelle
  imports Main
begin

section \<open>Request payload\<close>

text \<open>
  The body of a request to \<^verbatim>\<open>/optimize\<close> is a JSON object. The handler reads the
  keys \<^verbatim>\<open>jobs\<close>, \<^verbatim>\<open>drivers\<close> and \<^verbatim>\<open>time_matrix\<close>; whatever else the object
  carries is kept in \<open>other_keys\<close> and is never looked at.
\<close>

record job =
  pickup_node :: int
  dropoff_node :: int
  passengers :: int
  pickup_time :: int

record driver =
  id' :: string
  name :: string
  phone :: string
  start_idx :: int
  end_idx :: int
  capacity :: int
  shift_start :: int
  shift_end :: int

record payload =
  jobs :: "job list"
  drivers :: "driver list"
  time_matrix :: "int list list"
  other_keys :: "(string \<times> int) list"

section \<open>The routing library, seen from the handler\<close>

text \<open>
  The index manager and the routing model are objects of the routing library. The handler
  only calls them, so their index functions are parameters here: \<open>IndexToNode\<close> and
  \<open>NodeToIndex\<close> of the manager, \<open>Start\<close>, \<open>End\<close> and \<open>IsEnd\<close> of the routing model.
\<close>

record manager =
  IndexToNode :: "int \<Rightarrow> int"
  NodeToIndex :: "int \<Rightarrow> int"

record routing =
  Start :: "nat \<Rightarrow> int"
  End :: "nat \<Rightarrow> int"
  IsEnd :: "int \<Rightarrow> bool"

text \<open>
  What the handler reads from a solution: the value of \<open>NextVar\<close> and of the Time
  cumulative variable at an index. The values of the Capacity cumulative variable and of
  \<open>VehicleVar\<close> belong to the same assignment.
\<close>

record solution =
  Value_NextVar :: "int \<Rightarrow> int"
  Value_Time :: "int \<Rightarrow> int"
  Value_Capacity :: "int \<Rightarrow> int"
  Value_VehicleVar :: "int \<Rightarrow> int"

datatype first_solution_strategy = PATH_CHEAPEST_ARC

datatype local_search_metaheuristic = GUIDED_LOCAL_SEARCH

record search_parameters =
  first_solution :: first_solution_strategy
  metaheuristic :: local_search_metaheuristic
  time_limit_seconds :: int

text \<open>
  The calls the handler makes on the routing model, in the order it makes them. The two
  transit callbacks travel with the calls that register them.
\<close>

datatype call =
    SetArcCostEvaluatorOfAllVehicles "int \<Rightarrow> int \<Rightarrow> int option"
  | AddDimension "int \<Rightarrow> int \<Rightarrow> int option" int int bool string
  | SetRange int int int
  | AddPickupAndDelivery int int
  | Add_VehicleVar_eq int int
  | Add_CumulVar_le int int
  | AddDimensionWithVehicleCapacity "int \<Rightarrow> int" int "int list" bool string

text \<open>
  How a run of the library ends for the handler: an exception escapes
  (\<open>Raised\<close>, with its text), the search returns no solution, or it returns one.
\<close>

datatype solver_outcome = Raised string | NoSolution | Found solution

record pywrapcp =
  RoutingIndexManager :: "nat \<Rightarrow> nat \<Rightarrow> int list \<Rightarrow> int list \<Rightarrow> manager"
  RoutingModel :: "manager \<Rightarrow> routing"
  SolveWithParameters :: "call list \<Rightarrow> search_parameters \<Rightarrow> solver_outcome"

section \<open>Callbacks\<close>

text \<open>Python list indexing: a negative index counts from the end, \<open>None\<close> is IndexError.\<close>

definition py_get :: "'a list \<Rightarrow> int \<Rightarrow> 'a option" where
  "py_get xs i =
     (let n = int (length xs); j = (if i < 0 then n + i else i)
      in if 0 \<le> j \<and> j < n then Some (xs ! nat j) else None)"

definition time_callback :: "manager \<Rightarrow> int list list \<Rightarrow> int \<Rightarrow> int \<Rightarrow> int option" where
  "time_callback m tm from_index to_index =
     (let from_node = IndexToNode m from_index;
          to_node = IndexToNode m to_index
      in case py_get tm from_node of
           None \<Rightarrow> None
         | Some row \<Rightarrow> py_get row to_node)"

text \<open>
  The loop of \<^verbatim>\<open>demand_callback\<close> over the jobs: the first job whose pickup or dropoff
  node is the node decides, the pickup test coming first; 0 when no job matches.
\<close>

fun demand_loop :: "job list \<Rightarrow> int \<Rightarrow> int" where
  "demand_loop [] nd = 0"
| "demand_loop (j # rest) nd =
     (if nd = pickup_node j then passengers j
      else if nd = dropoff_node j then - passengers j
      else demand_loop rest nd)"

definition demand_callback :: "manager \<Rightarrow> job list \<Rightarrow> int \<Rightarrow> int" where
  "demand_callback m js from_index = demand_loop js (IndexToNode m from_index)"

section \<open>Building the routing model\<close>

text \<open>The body of the loop over the jobs: time windows, pairing, same vehicle, precedence.\<close>

definition job_calls :: "manager \<Rightarrow> job \<Rightarrow> call list" where
  "job_calls m j =
     (let pickup_idx = NodeToIndex m (pickup_node j);
          dropoff_idx = NodeToIndex m (dropoff_node j);
          pickup_tw_start = pickup_time j - 15 * 60;
          pickup_tw_end = pickup_time j + 15 * 60
      in [SetRange pickup_idx pickup_tw_start pickup_tw_end,
          SetRange dropoff_idx 0 (24 * 3600),
          AddPickupAndDelivery pickup_idx dropoff_idx,
          Add_VehicleVar_eq pickup_idx dropoff_idx,
          Add_CumulVar_le pickup_idx dropoff_idx])"

fun post_jobs :: "manager \<Rightarrow> job list \<Rightarrow> call list \<Rightarrow> call list" where
  "post_jobs m [] cs = cs"
| "post_jobs m (j # rest) cs = post_jobs m rest (cs @ job_calls m j)"

text \<open>The loop over \<^verbatim>\<open>enumerate(drivers)\<close>: the shift of vehicle \<open>i\<close>.\<close>

fun post_shifts :: "routing \<Rightarrow> nat \<Rightarrow> driver list \<Rightarrow> call list \<Rightarrow> call list" where
  "post_shifts r i [] cs = cs"
| "post_shifts r i (dr # rest) cs =
     post_shifts r (Suc i) rest
       (cs @ [SetRange (Start r i) (shift_start dr) (shift_start dr),
              SetRange (End r i) 0 (shift_end dr)])"

definition build_model :: "manager \<Rightarrow> routing \<Rightarrow> payload \<Rightarrow> call list" where
  "build_model m r d =
     (let cs1 = [SetArcCostEvaluatorOfAllVehicles (time_callback m (time_matrix d)),
                 AddDimension (time_callback m (time_matrix d)) (30 * 60) (24 * 3600) False ''Time''];
          cs2 = post_jobs m (jobs d) cs1;
          cs3 = cs2 @ [AddDimensionWithVehicleCapacity (demand_callback m (jobs d)) 0
                         (map capacity (drivers d)) True ''Capacity'']
      in post_shifts r 0 (drivers d) cs3)"

definition search_params :: search_parameters where
  "search_params =
     \<lparr>first_solution = PATH_CHEAPEST_ARC,
      metaheuristic = GUIDED_LOCAL_SEARCH,
      time_limit_seconds = 30\<rparr>"

section \<open>Reading the solution\<close>

record stop =
  node :: int
  arrival_time :: int

record route_entry =
  driver_id :: string
  driver_name :: string
  driver_phone :: string
  route :: "stop list"

datatype response = Success "route_entry list" | Error string nat

definition stop_at :: "manager \<Rightarrow> solution \<Rightarrow> int \<Rightarrow> stop" where
  "stop_at m s index = \<lparr>node = IndexToNode m index, arrival_time = Value_Time s index\<rparr>"

text \<open>
  The \<^verbatim>\<open>while not routing.IsEnd(index)\<close> loop with the end node appended after it.
  Nothing in the handler bounds the loop, so not returning is the value \<open>None\<close>.
\<close>

partial_function (option) walk ::
  "manager \<Rightarrow> routing \<Rightarrow> solution \<Rightarrow> stop list \<Rightarrow> int \<Rightarrow> stop list option" where
  "walk m r s rt index =
     (if \<not> IsEnd r index
      then walk m r s (rt @ [stop_at m s index]) (Value_NextVar s index)
      else Some (rt @ [stop_at m s index]))"

declare walk.simps [code]

definition tagged :: "driver \<Rightarrow> stop list \<Rightarrow> route_entry" where
  "tagged dr rt =
     \<lparr>driver_id = id' dr, driver_name = name dr, driver_phone = phone dr, route = rt\<rparr>"

text \<open>The loop over \<^verbatim>\<open>range(num_vehicles)\<close>; \<open>routes\<close> is the list built so far.\<close>

fun parse_solution ::
  "manager \<Rightarrow> routing \<Rightarrow> solution \<Rightarrow> driver list \<Rightarrow> nat list \<Rightarrow> route_entry list
     \<Rightarrow> route_entry list option" where
  "parse_solution m r s ds [] routes = Some routes"
| "parse_solution m r s ds (vehicle_id # rest) routes =
     (case walk m r s [] (Start r vehicle_id) of
        None \<Rightarrow> None
      | Some rt \<Rightarrow>
          parse_solution m r s ds rest
            (if length rt > 2 then routes @ [tagged (ds ! vehicle_id) rt] else routes))"

text \<open>The text of the 400 response, as the UTF-8 bytes of the source's literal.\<close>

definition no_solution_message :: string where
  "no_solution_message =
     ''Uygun rota bulunamad'' @ [CHR 0xC4, CHR 0xB1] @ ''.  S'' @ [CHR 0xC3, CHR 0xBC] @
     ''r'' @ [CHR 0xC3, CHR 0xBC] @ ''c'' @ [CHR 0xC3, CHR 0xBC] @ '' say'' @
     [CHR 0xC4, CHR 0xB1] @ ''s'' @ [CHR 0xC4, CHR 0xB1] @ ''n'' @ [CHR 0xC4, CHR 0xB1] @
     '' art'' @ [CHR 0xC4, CHR 0xB1] @ ''r'' @ [CHR 0xC4, CHR 0xB1] @
     ''n veya time window ayarlar'' @ [CHR 0xC4, CHR 0xB1] @ ''n'' @ [CHR 0xC4, CHR 0xB1] @
     '' gev'' @ [CHR 0xC5, CHR 0x9F] @ ''etin. ''"

definition the_manager :: "pywrapcp \<Rightarrow> payload \<Rightarrow> manager" where
  "the_manager lib d =
     (let num_vehicles = length (drivers d);
          num_locations = length (time_matrix d)
      in RoutingIndexManager lib num_locations num_vehicles
           (map start_idx (drivers d)) (map end_idx (drivers d)))"

definition the_routing :: "pywrapcp \<Rightarrow> payload \<Rightarrow> routing" where
  "the_routing lib d = RoutingModel lib (the_manager lib d)"

definition solve :: "pywrapcp \<Rightarrow> payload \<Rightarrow> solver_outcome" where
  "solve lib d =
     SolveWithParameters lib (build_model (the_manager lib d) (the_routing lib d) d) search_params"

text \<open>
  The handler. \<open>Error e 500\<close> is the \<^verbatim>\<open>except Exception\<close> branch, \<open>Error _ 400\<close> the
  \<^verbatim>\<open>if not solution\<close> branch.
\<close>

definition optimize :: "pywrapcp \<Rightarrow> payload \<Rightarrow> response option" where
  "optimize lib d =
     (let num_vehicles = length (drivers d);
          m = the_manager lib d;
          r = the_routing lib d
      in case solve lib d of
           Raised e \<Rightarrow> Some (Error e 500)
         | NoSolution \<Rightarrow> Some (Error no_solution_message 400)
         | Found s \<Rightarrow>
             map_option Success (parse_solution m r s (drivers d) [0..<num_vehicles] []))"

section \<open>What the solver guarantees\<close>

text \<open>
  The index sequence of a vehicle's path: from an index, following \<open>NextVar\<close> up to and
  including the first end index.
\<close>

inductive route_of :: "routing \<Rightarrow> solution \<Rightarrow> int \<Rightarrow> int list \<Rightarrow> bool"
  for r :: routing and s :: solution where
  route_end: "IsEnd r i \<Longrightarrow> route_of r s i [i]"
| route_step: "\<not> IsEnd r i \<Longrightarrow> route_of r s (Value_NextVar s i) p \<Longrightarrow> route_of r s i (i # p)"

code_pred route_of .

text \<open>
  Modelled from the spec: the cumulative variable of a dimension along a path (data model,
  "Cumulative Variable", and the two dimensions of the constraint system). The solver's own
  propagation is not part of the handler. At every index the value lies in \<open>[0, cap]\<close>;
  the value at the next index is at least the value here plus the transit of the step, and
  exceeds it by at most the slack. A step whose transit callback raises (\<open>None\<close>) is not
  part of any solution.
\<close>

fun cumul_ok ::
  "(int \<Rightarrow> int) \<Rightarrow> (int \<Rightarrow> int \<Rightarrow> int option) \<Rightarrow> int \<Rightarrow> int \<Rightarrow> int list \<Rightarrow> bool" where
  "cumul_ok cumul transit slack cap [] = True"
| "cumul_ok cumul transit slack cap [i] = (0 \<le> cumul i \<and> cumul i \<le> cap)"
| "cumul_ok cumul transit slack cap (i # k # p) =
     (0 \<le> cumul i \<and> cumul i \<le> cap
      \<and> (case transit i k of
            None \<Rightarrow> False
          | Some t \<Rightarrow> cumul i + t \<le> cumul k \<and> cumul k \<le> cumul i + t + slack)
      \<and> cumul_ok cumul transit slack cap (k # p))"

text \<open>
  Modelled from the spec: the paths of a solution for \<open>n\<close> vehicles (data model, "Route
  Index Space"). Every vehicle has a path that starts at its start index and ends at its
  end index, and the vehicle of every index on that path is that vehicle.
\<close>

definition paths_ok :: "routing \<Rightarrow> nat \<Rightarrow> solution \<Rightarrow> bool" where
  "paths_ok r n s =
     (\<forall>v < n. \<exists>p. route_of r s (Start r v) p \<and> last p = End r v
        \<and> (\<forall>i \<in> set p. Value_VehicleVar s i = int v))"

text \<open>
  Modelled from the spec: what a solution for \<open>n\<close> vehicles has to satisfy for a call
  posted on the model (constraint system: the two dimensions and the three coupling
  constraints). The Time dimension makes the time a cumulative variable along every
  vehicle's path, with the travel time as transit and one bound for all vehicles. A range
  set on a Time variable bounds its value. A pickup and delivery pair lies on the path of
  one vehicle. The two constraints added to the solver are an equality of vehicles and an
  order of times. The Capacity dimension makes the load a cumulative variable along every
  vehicle's path, with the demand of the index left as transit and that vehicle's capacity
  as bound. A dimension whose start is fixed to zero has the value 0 at every start index.
  The arc cost evaluator sets the objective and constrains nothing.
\<close>

fun holds :: "routing \<Rightarrow> nat \<Rightarrow> solution \<Rightarrow> call \<Rightarrow> bool" where
  "holds r n s (SetArcCostEvaluatorOfAllVehicles f) = True"
| "holds r n s (AddDimension transit slack cap fix nm) =
     (\<forall>v < n. \<exists>p. route_of r s (Start r v) p
        \<and> (fix \<longrightarrow> Value_Time s (Start r v) = 0)
        \<and> cumul_ok (Value_Time s) transit slack cap p)"
| "holds r n s (SetRange i lo hi) = (lo \<le> Value_Time s i \<and> Value_Time s i \<le> hi)"
| "holds r n s (AddPickupAndDelivery p q) =
     (\<exists>v < n. \<exists>path. route_of r s (Start r v) path \<and> p \<in> set path \<and> q \<in> set path)"
| "holds r n s (Add_VehicleVar_eq p q) = (Value_VehicleVar s p = Value_VehicleVar s q)"
| "holds r n s (Add_CumulVar_le p q) = (Value_Time s p \<le> Value_Time s q)"
| "holds r n s (AddDimensionWithVehicleCapacity transit slack caps fix nm) =
     (\<forall>v < length caps. \<exists>p. route_of r s (Start r v) p
        \<and> (fix \<longrightarrow> Value_Capacity s (Start r v) = 0)
        \<and> cumul_ok (Value_Capacity s) (\<lambda>i k. Some (transit i)) slack (caps ! v) p)"

text \<open>
  Modelled from the spec: an accepted assignment for a request is one that has the paths of
  a solution for the request's vehicles and satisfies every call of the model the handler
  builds for the request.
\<close>

definition accepted :: "manager \<Rightarrow> routing \<Rightarrow> payload \<Rightarrow> solution \<Rightarrow> bool" where
  "accepted m r d s =
     (paths_ok r (length (drivers d)) s
      \<and> (\<forall>c \<in> set (build_model m r d). holds r (length (drivers d)) s c))"

text \<open>
  Modelled from the spec: the contract of the search, which belongs to the routing library.
  Whatever calls the library is handed, a solution it returns for a model of \<open>n\<close>
  vehicles has the paths of a solution and satisfies every one of those calls.
\<close>

definition solver_contract :: "pywrapcp \<Rightarrow> routing \<Rightarrow> nat \<Rightarrow> bool" where
  "solver_contract lib r n =
     (\<forall>cs ps s. SolveWithParameters lib cs ps = Found s \<longrightarrow>
        paths_ok r n s \<and> (\<forall>c \<in> set cs. holds r n s c))"

section \<open>A worked request\<close>

text \<open>
  Three locations (0 the depot, 1 and 2 the pickup and dropoff of the only job) and two
  vehicles starting and ending at the depot. Indices 0 and 3 are the starts, 4 and 5 the
  ends. The first vehicle serves the job; the second goes from its start to its end.
\<close>

definition ex_manager :: manager where
  "ex_manager =
     \<lparr>IndexToNode = (\<lambda>i. if i = 1 then 1 else if i = 2 then 2 else 0),
      NodeToIndex = (\<lambda>n. n)\<rparr>"

definition ex_routing :: routing where
  "ex_routing =
     \<lparr>Start = (\<lambda>v. if v = 0 then 0 else 3),
      End = (\<lambda>v. if v = 0 then 4 else 5),
      IsEnd = (\<lambda>i. 4 \<le> i)\<rparr>"

definition ex_job :: job where
  "ex_job = \<lparr>pickup_node = 1, dropoff_node = 2, passengers = 1, pickup_time = 1000\<rparr>"

definition ex_driver1 :: driver where
  "ex_driver1 =
     \<lparr>id' = ''d1'', name = ''Ada'', phone = ''555-0101'', start_idx = 0, end_idx = 0,
      capacity = 4, shift_start = 0, shift_end = 36000\<rparr>"

definition ex_driver2 :: driver where
  "ex_driver2 =
     \<lparr>id' = ''d2'', name = ''Bo'', phone = ''555-0102'', start_idx = 0, end_idx = 0,
      capacity = 2, shift_start = 50, shift_end = 36000\<rparr>"

definition ex_payload :: payload where
  "ex_payload =
     \<lparr>jobs = [ex_job],
      drivers = [ex_driver1, ex_driver2],
      time_matrix = [[0, 0, 0], [0, 0, 500], [0, 0, 0]],
      other_keys = [(''time_limit'', 60), (''pickup_tolerance'', 300)]\<rparr>"

definition ex_solution :: solution where
  "ex_solution =
     \<lparr>Value_NextVar = (\<lambda>i. if i = 0 then 1 else if i = 1 then 2 else if i = 2 then 4 else 5),
      Value_Time = (\<lambda>i. if i = 1 then 100 else if i = 2 \<or> i = 4 then 600
                         else if i = 3 \<or> i = 5 then 50 else 0),
      Value_Capacity = (\<lambda>i. if i = 2 then 1 else 0),
      Value_VehicleVar = (\<lambda>i. if i = 3 \<or> i = 5 then 1 else 0)\<rparr>"

definition ex_paths :: "nat \<Rightarrow> int list" where
  "ex_paths v = (if v = 0 then [0, 1, 2, 4] else [3, 5])"

definition ex_lib :: pywrapcp where
  "ex_lib =
     \<lparr>RoutingIndexManager = (\<lambda>num_locations num_vehicles starts ends. ex_manager),
      RoutingModel = (\<lambda>m. ex_routing),
      SolveWithParameters = (\<lambda>cs ps. Found ex_solution)\<rparr>"


text \<open>
  A solver for the worked request. As the routing library does, it refuses a range that
  leaves a Time variable without a value: the variables start with the range of the Time
  dimension, 0 to \<open>24 * 3600\<close>, every \<open>SetRange\<close> narrows the range of its variable, and
  the call that empties one raises \<^verbatim>\<open>CP Solver fail\<close> while the model is built, before
  any search. Otherwise it returns the assignment above when that satisfies the calls it
  is handed, and no solution when it does not.
\<close>

fun refuses :: "(int \<Rightarrow> int \<times> int) \<Rightarrow> call list \<Rightarrow> bool" where
  "refuses bnd [] = False"
| "refuses bnd (SetRange i lo hi # cs) =
     (let lo' = max (fst (bnd i)) lo; hi' = min (snd (bnd i)) hi
      in if hi' < lo' then True else refuses (bnd(i := (lo', hi'))) cs)"
| "refuses bnd (c # cs) = refuses bnd cs"

definition ex_solver :: pywrapcp where
  "ex_solver =
     \<lparr>RoutingIndexManager = (\<lambda>num_locations num_vehicles starts ends. ex_manager),
      RoutingModel = (\<lambda>m. ex_routing),
      SolveWithParameters = (\<lambda>cs ps.
        if refuses (\<lambda>i. (0, 24 * 3600)) cs then Raised ''CP Solver fail''
        else if paths_ok ex_routing 2 ex_solution \<and> (\<forall>c \<in> set cs. holds ex_routing 2 ex_solution c)
        then Found ex_solution
        else NoSolution)\<rparr>"



text \<open>Three jobs of which the second and the third share node 2.\<close>

definition ex_shared_jobs :: "job list" where
  "ex_shared_jobs =
     [\<lparr>pickup_node = 5, dropoff_node = 6, passengers = 1, pickup_time = 1000\<rparr>,
      \<lparr>pickup_node = 1, dropoff_node = 2, passengers = 3, pickup_time = 2000\<rparr>,
      \<lparr>pickup_node = 2, dropoff_node = 3, passengers = 2, pickup_time = 3000\<rparr>]"


section \<open>Facts about the model and the loops\<close>

lemma demand_loop_skip:
  "\<forall>j \<in> set pre. nd \<noteq> pickup_node j \<and> nd \<noteq> dropoff_node j \<Longrightarrow>
   demand_loop (pre @ rest) nd = demand_loop rest nd"
  by (induction pre) simp_all

lemma post_jobs_set:
  "set (post_jobs m js cs) = set cs \<union> (\<Union>j \<in> set js. set (job_calls m j))"
  by (induction js arbitrary: cs) auto

lemma post_shifts_keeps: "c \<in> set cs \<Longrightarrow> c \<in> set (post_shifts r i ds cs)"
  by (induction ds arbitrary: i cs) auto

lemma post_shifts_start:
  "v < length ds \<Longrightarrow>
   SetRange (Start r (i + v)) (shift_start (ds ! v)) (shift_start (ds ! v))
     \<in> set (post_shifts r i ds cs)"
proof (induction ds arbitrary: i v cs)
  case Nil
  then show ?case by simp
next
  case (Cons dr rest)
  show ?case
  proof (cases v)
    case 0
    then show ?thesis by (simp add: post_shifts_keeps)
  next
    case (Suc w)
    with Cons.prems have "w < length rest" by simp
    from Cons.IH [OF this, of "Suc i"] Suc show ?thesis by simp
  qed
qed

lemma post_shifts_end:
  "v < length ds \<Longrightarrow>
   SetRange (End r (i + v)) 0 (shift_end (ds ! v)) \<in> set (post_shifts r i ds cs)"
proof (induction ds arbitrary: i v cs)
  case Nil
  then show ?case by simp
next
  case (Cons dr rest)
  show ?case
  proof (cases v)
    case 0
    then show ?thesis by (simp add: post_shifts_keeps)
  next
    case (Suc w)
    with Cons.prems have "w < length rest" by simp
    from Cons.IH [OF this, of "Suc i"] Suc show ?thesis by simp
  qed
qed

lemma job_calls_in_model:
  "j \<in> set (jobs d) \<Longrightarrow> c \<in> set (job_calls m j) \<Longrightarrow> c \<in> set (build_model m r d)"
  by (auto simp add: build_model_def Let_def post_jobs_set intro!: post_shifts_keeps)

lemma capacity_in_model:
  "AddDimensionWithVehicleCapacity (demand_callback m (jobs d)) 0 (map capacity (drivers d)) True ''Capacity''
     \<in> set (build_model m r d)"
  by (simp add: build_model_def Let_def post_shifts_keeps)

lemma shift_start_in_model:
  "v < length (drivers d) \<Longrightarrow>
   SetRange (Start r v) (shift_start (drivers d ! v)) (shift_start (drivers d ! v))
     \<in> set (build_model m r d)"
  using post_shifts_start [of v "drivers d" r 0] by (simp add: build_model_def Let_def)

lemma shift_end_in_model:
  "v < length (drivers d) \<Longrightarrow>
   SetRange (End r v) 0 (shift_end (drivers d ! v)) \<in> set (build_model m r d)"
  using post_shifts_end [of v "drivers d" r 0] by (simp add: build_model_def Let_def)

lemma route_of_unique: "route_of r s i p \<Longrightarrow> route_of r s i q \<Longrightarrow> p = q"
proof (induction arbitrary: q rule: route_of.induct)
  case (route_end i)
  then show ?case by (auto elim: route_of.cases)
next
  case (route_step i p)
  from route_step.prems route_step.hyps(1) obtain q' where
    "q = i # q'" "route_of r s (Value_NextVar s i) q'"
    by (auto elim: route_of.cases)
  with route_step.IH show ?case by simp
qed

lemma route_of_hd: "route_of r s i p \<Longrightarrow> p \<noteq> [] \<and> hd p = i"
  by (erule route_of.cases) simp_all

lemma cumul_ok_bounds:
  "cumul_ok c f sl cap p \<Longrightarrow> k < length p \<Longrightarrow> 0 \<le> c (p ! k) \<and> c (p ! k) \<le> cap"
proof (induction c f sl cap p arbitrary: k rule: cumul_ok.induct)
  case (3 c f sl cap i k' p)
  then show ?case by (cases k) simp_all
qed simp_all

lemma cumul_ok_running_sum:
  "cumul_ok c (\<lambda>i k. Some (t i)) 0 cap p \<Longrightarrow> k < length p \<Longrightarrow>
   c (p ! k) = c (hd p) + sum_list (map t (take k p))"
proof (induction p arbitrary: k)
  case Nil
  then show ?case by simp
next
  case (Cons i p)
  show ?case
  proof (cases k)
    case 0
    then show ?thesis by simp
  next
    case (Suc n)
    with Cons.prems obtain k' q where p: "p = k' # q" by (cases p) auto
    from Cons.prems p Suc have n: "n < length p" and ok: "cumul_ok c (\<lambda>i k. Some (t i)) 0 cap p"
      and step: "c k' = c i + t i" by simp_all
    from Cons.IH [OF ok n] step Suc p show ?thesis by simp
  qed
qed




lemma walk_route:
  "route_of r s i p \<Longrightarrow> walk m r s rt i = Some (rt @ map (stop_at m s) p)"
proof (induction arbitrary: rt rule: route_of.induct)
  case (route_end i)
  then show ?case by (subst walk.simps) simp
next
  case (route_step i p)
  then show ?case by (subst walk.simps) simp
qed

lemma parse_solution_routes:
  "\<forall>v \<in> set vs. route_of r s (Start r v) (paths v) \<Longrightarrow>
   parse_solution m r s ds vs routes =
     Some (routes @ map (\<lambda>v. tagged (ds ! v) (map (stop_at m s) (paths v)))
                      (filter (\<lambda>v. length (paths v) > 2) vs))"
proof (induction vs arbitrary: routes)
  case Nil
  then show ?case by simp
next
  case (Cons v vs)
  from Cons.prems have w: "walk m r s [] (Start r v) = Some (map (stop_at m s) (paths v))"
    using walk_route [of r s "Start r v" "paths v" m "[]"] by simp
  from Cons.prems have rest: "\<forall>v \<in> set vs. route_of r s (Start r v) (paths v)" by simp
  show ?case by (simp add: w Cons.IH [OF rest])
qed

lemma time_dimension_in_model:
  "AddDimension (time_callback m (time_matrix d)) (30 * 60) (24 * 3600) False ''Time''
     \<in> set (build_model m r d)"
  by (simp add: build_model_def Let_def post_shifts_keeps post_jobs_set)

lemma contract_accepted:
  assumes "solver_contract lib (the_routing lib d) (length (drivers d))"
    and "solve lib d = Found s"
  shows "accepted (the_manager lib d) (the_routing lib d) d s"
  using assms unfolding solver_contract_def solve_def accepted_def by blast

lemma paths_ok_vehicle:
  assumes "paths_ok r n s" and "v < n" and "route_of r s (Start r v) p" and "i \<in> set p"
  shows "Value_VehicleVar s i = int v"
proof -
  from assms(1,2) obtain q where q: "route_of r s (Start r v) q"
    and veh: "\<forall>i \<in> set q. Value_VehicleVar s i = int v"
    unfolding paths_ok_def by blast
  from q assms(3) have "q = p" by (rule route_of_unique)
  with veh assms(4) show ?thesis by simp
qed

section \<open>The worked request is accepted\<close>

lemma ex_route_0: "route_of ex_routing ex_solution 0 [0, 1, 2, 4]"
proof -
  have "route_of ex_routing ex_solution 4 [4]"
    by (rule route_end) (simp add: ex_routing_def)
  then have "route_of ex_routing ex_solution 2 [2, 4]"
    using route_step [of ex_routing 2 ex_solution "[4]"]
    by (simp add: ex_routing_def ex_solution_def)
  then have "route_of ex_routing ex_solution 1 [1, 2, 4]"
    using route_step [of ex_routing 1 ex_solution "[2, 4]"]
    by (simp add: ex_routing_def ex_solution_def)
  then show ?thesis
    using route_step [of ex_routing 0 ex_solution "[1, 2, 4]"]
    by (simp add: ex_routing_def ex_solution_def)
qed

lemma ex_route_1: "route_of ex_routing ex_solution 3 [3, 5]"
proof -
  have "route_of ex_routing ex_solution 5 [5]"
    by (rule route_end) (simp add: ex_routing_def)
  then show ?thesis
    using route_step [of ex_routing 3 ex_solution "[5]"]
    by (simp add: ex_routing_def ex_solution_def)
qed

lemma ex_routes:
  "\<forall>v < length (drivers ex_payload).
     route_of ex_routing ex_solution (Start ex_routing v) (ex_paths v)"
proof (intro allI impI)
  fix v :: nat
  assume "v < length (drivers ex_payload)"
  then have "v = 0 \<or> v = 1" by (auto simp add: ex_payload_def)
  then show "route_of ex_routing ex_solution (Start ex_routing v) (ex_paths v)"
    using ex_route_0 ex_route_1 by (auto simp add: ex_routing_def ex_paths_def)
qed

lemma ex_model:
  "build_model ex_manager ex_routing ex_payload =
     [SetArcCostEvaluatorOfAllVehicles (time_callback ex_manager (time_matrix ex_payload)),
      AddDimension (time_callback ex_manager (time_matrix ex_payload)) 1800 86400 False ''Time'',
      SetRange 1 100 1900, SetRange 2 0 86400, AddPickupAndDelivery 1 2,
      Add_VehicleVar_eq 1 2, Add_CumulVar_le 1 2,
      AddDimensionWithVehicleCapacity (demand_callback ex_manager [ex_job]) 0 [4, 2] True ''Capacity'',
      SetRange 0 0 0, SetRange 4 0 36000, SetRange 3 50 50, SetRange 5 0 36000]"
  by (simp add: build_model_def ex_payload_def job_calls_def ex_job_def ex_manager_def
      ex_routing_def ex_driver1_def ex_driver2_def)

lemma ex_paths_ok: "paths_ok ex_routing 2 ex_solution"
proof -
  have "\<exists>p. route_of ex_routing ex_solution (Start ex_routing v) p \<and> last p = End ex_routing v
          \<and> (\<forall>i \<in> set p. Value_VehicleVar ex_solution i = int v)"
    if "v < 2" for v :: nat
  proof -
    from that have "v = 0 \<or> v = 1" by auto
    then show ?thesis
    proof
      assume "v = 0"
      then show ?thesis
        using ex_route_0
        by (intro exI [of _ "[0, 1, 2, 4]"]) (simp add: ex_routing_def ex_solution_def)
    next
      assume "v = 1"
      then show ?thesis
        using ex_route_1
        by (intro exI [of _ "[3, 5]"]) (simp add: ex_routing_def ex_solution_def)
    qed
  qed
  then show ?thesis by (simp add: paths_ok_def)
qed

lemma ex_time:
  "holds ex_routing 2 ex_solution
     (AddDimension (time_callback ex_manager (time_matrix ex_payload)) 1800 86400 False ''Time'')"
proof -
  have "\<exists>p. route_of ex_routing ex_solution (Start ex_routing v) p
          \<and> (False \<longrightarrow> Value_Time ex_solution (Start ex_routing v) = 0)
          \<and> cumul_ok (Value_Time ex_solution) (time_callback ex_manager (time_matrix ex_payload))
               1800 86400 p"
    if "v < 2" for v :: nat
  proof -
    from that have "v = 0 \<or> v = 1" by auto
    then show ?thesis
    proof
      assume "v = 0"
      then show ?thesis
        using ex_route_0
        by (intro exI [of _ "[0, 1, 2, 4]"])
          (simp add: ex_routing_def ex_solution_def time_callback_def py_get_def
            ex_manager_def ex_payload_def)
    next
      assume "v = 1"
      then show ?thesis
        using ex_route_1
        by (intro exI [of _ "[3, 5]"])
          (simp add: ex_routing_def ex_solution_def time_callback_def py_get_def
            ex_manager_def ex_payload_def)
    qed
  qed
  then show ?thesis by simp
qed

lemma ex_pair: "holds ex_routing 2 ex_solution (AddPickupAndDelivery 1 2)"
proof -
  have "(0::nat) < 2 \<and> route_of ex_routing ex_solution (Start ex_routing 0) [0, 1, 2, 4]
          \<and> (1::int) \<in> set [0, 1, 2, 4] \<and> (2::int) \<in> set [0, 1, 2, 4]"
    using ex_route_0 by (simp add: ex_routing_def)
  then show ?thesis unfolding holds.simps by blast
qed

lemma ex_capacity:
  "holds ex_routing 2 ex_solution
     (AddDimensionWithVehicleCapacity (demand_callback ex_manager [ex_job]) 0 [4, 2] True ''Capacity'')"
proof -
  have "\<exists>p. route_of ex_routing ex_solution (Start ex_routing v) p
          \<and> (True \<longrightarrow> Value_Capacity ex_solution (Start ex_routing v) = 0)
          \<and> cumul_ok (Value_Capacity ex_solution)
               (\<lambda>i k. Some (demand_callback ex_manager [ex_job] i)) 0 ([4, 2] ! v) p"
    if "v < 2" for v :: nat
  proof -
    from that have "v = 0 \<or> v = 1" by auto
    then show ?thesis
    proof
      assume "v = 0"
      then show ?thesis
        using ex_route_0
        by (intro exI [of _ "[0, 1, 2, 4]"])
          (simp add: ex_routing_def ex_solution_def demand_callback_def ex_manager_def ex_job_def)
    next
      assume "v = 1"
      then show ?thesis
        using ex_route_1
        by (intro exI [of _ "[3, 5]"])
          (simp add: ex_routing_def ex_solution_def demand_callback_def ex_manager_def ex_job_def)
    qed
  qed
  then show ?thesis by simp
qed

lemma ex_drivers: "length (drivers ex_payload) = 2"
  by (simp add: ex_payload_def)

lemma ex_calls_hold: "\<forall>c \<in> set (build_model ex_manager ex_routing ex_payload). holds ex_routing 2 ex_solution c"
  unfolding ex_model
  using ex_capacity ex_time ex_pair by (simp add: ex_solution_def)

lemma ex_accepted: "accepted ex_manager ex_routing ex_payload ex_solution"
  unfolding accepted_def ex_drivers
  using ex_paths_ok ex_calls_hold by simp

section \<open>The solver of the worked request\<close>

lemma ex_solver_manager: "the_manager ex_solver d = ex_manager"
  by (simp add: the_manager_def ex_solver_def)

lemma ex_solver_routing: "the_routing ex_solver d = ex_routing"
  by (simp add: the_routing_def ex_solver_def)

lemma ex_solver_contract: "solver_contract ex_solver ex_routing 2"
  by (simp add: solver_contract_def ex_solver_def split: if_splits)

lemma ex_solver_found: "solve ex_solver ex_payload = Found ex_solution"
proof -
  have "\<not> refuses (\<lambda>i. (0, 24 * 3600)) (build_model ex_manager ex_routing ex_payload)"
    unfolding ex_model by simp
  with ex_paths_ok ex_calls_hold show ?thesis
    by (simp add: solve_def ex_solver_manager ex_solver_routing) (simp add: ex_solver_def)
qed








section \<open>Pairing of pickup and dropoff\<close>

text \<open>
  Claim C1. For a solver that keeps its contract and every assignment it returns for the
  model of a request, every job of the request has its pickup index and its dropoff index
  on the path of one and the same vehicle, which is the vehicle of both indices, and the
  time value at the dropoff index is at least the time value at the pickup index.
\<close>

theorem pickup_dropoff_same_vehicle_in_order:
  assumes "solver_contract lib (the_routing lib d) (length (drivers d))"
    and "solve lib d = Found s"
    and "j \<in> set (jobs d)"
  shows "(\<exists>v < length (drivers d). \<exists>p.
            route_of (the_routing lib d) s (Start (the_routing lib d) v) p
            \<and> NodeToIndex (the_manager lib d) (pickup_node j) \<in> set p
            \<and> NodeToIndex (the_manager lib d) (dropoff_node j) \<in> set p
            \<and> Value_VehicleVar s (NodeToIndex (the_manager lib d) (pickup_node j)) = int v
            \<and> Value_VehicleVar s (NodeToIndex (the_manager lib d) (dropoff_node j)) = int v)
         \<and> Value_Time s (NodeToIndex (the_manager lib d) (pickup_node j))
           \<le> Value_Time s (NodeToIndex (the_manager lib d) (dropoff_node j))"
proof -
  let ?m = "the_manager lib d" and ?r = "the_routing lib d" and ?n = "length (drivers d)"
  let ?p = "NodeToIndex ?m (pickup_node j)" and ?q = "NodeToIndex ?m (dropoff_node j)"
  from contract_accepted [OF assms(1,2)]
  have paths: "paths_ok ?r ?n s"
    and calls: "\<forall>c \<in> set (build_model ?m ?r d). holds ?r ?n s c"
    unfolding accepted_def by blast+
  have "AddPickupAndDelivery ?p ?q \<in> set (job_calls ?m j)"
    and "Add_CumulVar_le ?p ?q \<in> set (job_calls ?m j)"
    by (simp_all add: job_calls_def Let_def)
  with assms(3) have "AddPickupAndDelivery ?p ?q \<in> set (build_model ?m ?r d)"
    and "Add_CumulVar_le ?p ?q \<in> set (build_model ?m ?r d)"
    by (blast intro: job_calls_in_model)+
  with calls have pair: "holds ?r ?n s (AddPickupAndDelivery ?p ?q)"
    and le: "holds ?r ?n s (Add_CumulVar_le ?p ?q)"
    by blast+
  from pair obtain v path where v: "v < ?n" and path: "route_of ?r s (Start ?r v) path"
    and p: "?p \<in> set path" and q: "?q \<in> set path"
    by auto
  from paths_ok_vehicle [OF paths v path p] paths_ok_vehicle [OF paths v path q]
  have "Value_VehicleVar s ?p = int v" and "Value_VehicleVar s ?q = int v" .
  with v path p q le show ?thesis by auto
qed

theorem pickup_dropoff_same_vehicle_in_order_witness:
  "solver_contract ex_solver (the_routing ex_solver ex_payload) (length (drivers ex_payload))
   \<and> solve ex_solver ex_payload = Found ex_solution
   \<and> ex_job \<in> set (jobs ex_payload)
   \<and> Value_VehicleVar ex_solution 1 = Value_VehicleVar ex_solution 2
   \<and> Value_Time ex_solution 1 \<le> Value_Time ex_solution 2"
proof -
  have c: "solver_contract ex_solver (the_routing ex_solver ex_payload) (length (drivers ex_payload))"
    using ex_solver_contract by (simp add: ex_solver_routing ex_drivers)
  have j: "ex_job \<in> set (jobs ex_payload)" by (simp add: ex_payload_def)
  from pickup_dropoff_same_vehicle_in_order [OF c ex_solver_found j] c ex_solver_found j
  show ?thesis by (auto simp add: ex_solver_manager ex_manager_def ex_job_def)
qed

section \<open>Load along a route\<close>

text \<open>
  Claim C2. For a solver that keeps its contract and every assignment it returns for the
  model of a request, along the path of every vehicle the load at every index is the sum
  of the demands of the indices before it on the path, it is not negative, and it does not
  exceed the capacity of that vehicle's driver.
\<close>

theorem load_within_capacity:
  assumes "solver_contract lib (the_routing lib d) (length (drivers d))"
    and "solve lib d = Found s"
    and "v < length (drivers d)"
    and "route_of (the_routing lib d) s (Start (the_routing lib d) v) p"
    and "k < length p"
  shows "Value_Capacity s (p ! k)
           = sum_list (map (demand_callback (the_manager lib d) (jobs d)) (take k p))
         \<and> 0 \<le> Value_Capacity s (p ! k)
         \<and> Value_Capacity s (p ! k) \<le> capacity (drivers d ! v)"
proof -
  let ?m = "the_manager lib d" and ?r = "the_routing lib d" and ?n = "length (drivers d)"
  let ?t = "\<lambda>i k::int. Some (demand_callback ?m (jobs d) i)"
  from contract_accepted [OF assms(1,2)] capacity_in_model [of ?m d ?r]
  have "holds ?r ?n s (AddDimensionWithVehicleCapacity (demand_callback ?m (jobs d)) 0
                         (map capacity (drivers d)) True ''Capacity'')"
    unfolding accepted_def by blast
  with assms(3) obtain q where q: "route_of ?r s (Start ?r v) q"
    and zero: "Value_Capacity s (Start ?r v) = 0"
    and ok: "cumul_ok (Value_Capacity s) ?t 0 (capacity (drivers d ! v)) q"
    by auto
  from q assms(4) have "q = p" by (rule route_of_unique)
  with ok have ok': "cumul_ok (Value_Capacity s) ?t 0 (capacity (drivers d ! v)) p" by simp
  from route_of_hd [OF assms(4)] zero have "Value_Capacity s (hd p) = 0" by simp
  with cumul_ok_running_sum [OF ok' assms(5)] cumul_ok_bounds [OF ok' assms(5)]
  show ?thesis by simp
qed

theorem load_within_capacity_witness:
  "solver_contract ex_solver (the_routing ex_solver ex_payload) (length (drivers ex_payload))
   \<and> solve ex_solver ex_payload = Found ex_solution
   \<and> (0::nat) < length (drivers ex_payload)
   \<and> route_of (the_routing ex_solver ex_payload) ex_solution
         (Start (the_routing ex_solver ex_payload) 0) [0, 1, 2, 4]
   \<and> (2::nat) < length [0, 1, 2, 4 :: int]
   \<and> Value_Capacity ex_solution 2 = 1
   \<and> sum_list (map (demand_callback ex_manager (jobs ex_payload)) [0, 1]) = 1
   \<and> capacity (drivers ex_payload ! 0) = 4"
proof -
  have c: "solver_contract ex_solver (the_routing ex_solver ex_payload) (length (drivers ex_payload))"
    using ex_solver_contract by (simp add: ex_solver_routing ex_drivers)
  have v: "(0::nat) < length (drivers ex_payload)" by (simp add: ex_payload_def)
  have p: "route_of (the_routing ex_solver ex_payload) ex_solution
             (Start (the_routing ex_solver ex_payload) 0) [0, 1, 2, 4]"
    using ex_route_0 by (simp add: ex_solver_routing ex_routing_def)
  have k: "(2::nat) < length [0, 1, 2, 4 :: int]" by simp
  from load_within_capacity [OF c ex_solver_found v p k] c ex_solver_found v p
  show ?thesis
    by (simp add: ex_solver_manager ex_solution_def ex_payload_def ex_driver1_def)
qed

section \<open>Time windows and shifts\<close>

text \<open>
  Claim C3. For a solver that keeps its contract and every assignment it returns for the
  model of a request, the time value at every job's pickup index lies within 900 seconds
  of the job's pickup time; the time value at every vehicle's start index is the driver's
  shift start, and the time value at its end index is at most the driver's shift end.
\<close>

theorem windows_and_shifts:
  assumes "solver_contract lib (the_routing lib d) (length (drivers d))"
    and "solve lib d = Found s"
  shows "(\<forall>j \<in> set (jobs d).
            pickup_time j - 900 \<le> Value_Time s (NodeToIndex (the_manager lib d) (pickup_node j))
            \<and> Value_Time s (NodeToIndex (the_manager lib d) (pickup_node j)) \<le> pickup_time j + 900)
         \<and> (\<forall>v < length (drivers d).
            Value_Time s (Start (the_routing lib d) v) = shift_start (drivers d ! v)
            \<and> Value_Time s (End (the_routing lib d) v) \<le> shift_end (drivers d ! v))"
proof (intro conjI ballI allI impI)
  let ?m = "the_manager lib d" and ?r = "the_routing lib d" and ?n = "length (drivers d)"
  from contract_accepted [OF assms]
  have calls: "\<forall>c \<in> set (build_model ?m ?r d). holds ?r ?n s c"
    unfolding accepted_def by blast
  {
    fix j
    assume j: "j \<in> set (jobs d)"
    have "SetRange (NodeToIndex ?m (pickup_node j)) (pickup_time j - 900) (pickup_time j + 900)
            \<in> set (job_calls ?m j)"
      by (simp add: job_calls_def Let_def)
    with j have "SetRange (NodeToIndex ?m (pickup_node j)) (pickup_time j - 900) (pickup_time j + 900)
                   \<in> set (build_model ?m ?r d)"
      by (blast intro: job_calls_in_model)
    with calls have w: "holds ?r ?n s (SetRange (NodeToIndex ?m (pickup_node j))
                                        (pickup_time j - 900) (pickup_time j + 900))"
      by blast
    from w show "pickup_time j - 900 \<le> Value_Time s (NodeToIndex ?m (pickup_node j))" by simp
    from w show "Value_Time s (NodeToIndex ?m (pickup_node j)) \<le> pickup_time j + 900" by simp
  }
  {
    fix v
    assume v: "v < length (drivers d)"
    from calls shift_start_in_model [OF v, of ?r ?m]
    have "holds ?r ?n s
            (SetRange (Start ?r v) (shift_start (drivers d ! v)) (shift_start (drivers d ! v)))"
      by blast
    then show "Value_Time s (Start ?r v) = shift_start (drivers d ! v)" by simp
    from calls shift_end_in_model [OF v, of ?r ?m]
    have "holds ?r ?n s (SetRange (End ?r v) 0 (shift_end (drivers d ! v)))"
      by blast
    then show "Value_Time s (End ?r v) \<le> shift_end (drivers d ! v)" by simp
  }
qed

theorem windows_and_shifts_witness:
  "solver_contract ex_solver (the_routing ex_solver ex_payload) (length (drivers ex_payload))
   \<and> solve ex_solver ex_payload = Found ex_solution
   \<and> pickup_time ex_job - 900 \<le> Value_Time ex_solution (NodeToIndex ex_manager (pickup_node ex_job))
   \<and> Value_Time ex_solution (NodeToIndex ex_manager (pickup_node ex_job)) \<le> pickup_time ex_job + 900
   \<and> Value_Time ex_solution (Start ex_routing 0) = shift_start ex_driver1
   \<and> Value_Time ex_solution (End ex_routing 0) \<le> shift_end ex_driver1
   \<and> Value_Time ex_solution (Start ex_routing 1) = shift_start ex_driver2
   \<and> Value_Time ex_solution (End ex_routing 1) \<le> shift_end ex_driver2"
proof -
  have c: "solver_contract ex_solver (the_routing ex_solver ex_payload) (length (drivers ex_payload))"
    using ex_solver_contract by (simp add: ex_solver_routing ex_drivers)
  have js: "jobs ex_payload = [ex_job]" and ds: "drivers ex_payload = [ex_driver1, ex_driver2]"
    by (simp_all add: ex_payload_def)
  from windows_and_shifts [OF c ex_solver_found] c ex_solver_found show ?thesis
    by (simp add: js ds All_less_Suc numeral_2_eq_2 ex_solver_manager ex_solver_routing)
qed

section \<open>No solution\<close>




section \<open>Routes of the response\<close>

text \<open>
  Claim C6. When the search returns a solution in which every vehicle's path reaches an end
  index, the handler returns a success whose routes are, in vehicle order, those of the
  vehicles whose route has more than two stops, each with the id, name and phone of that
  vehicle's driver. A route is as long as the path it is read from, so a vehicle whose
  route has exactly two stops (start, then end) is left out.
\<close>

theorem unused_vehicles_dropped:
  assumes "solve lib d = Found s"
    and "\<forall>v < length (drivers d).
           route_of (the_routing lib d) s (Start (the_routing lib d) v) (paths v)"
  shows "optimize lib d =
           Some (Success
             (map (\<lambda>v. \<lparr>driver_id = id' (drivers d ! v),
                         driver_name = name (drivers d ! v),
                         driver_phone = phone (drivers d ! v),
                         route = map (stop_at (the_manager lib d) s) (paths v)\<rparr>)
                (filter (\<lambda>v. 2 < length (map (stop_at (the_manager lib d) s) (paths v)))
                   [0..<length (drivers d)])))"
proof -
  from assms(2) have
    "\<forall>v \<in> set [0..<length (drivers d)].
       route_of (the_routing lib d) s (Start (the_routing lib d) v) (paths v)"
    by simp
  from parse_solution_routes [OF this, of "the_manager lib d" "drivers d" "[]"]
  have "parse_solution (the_manager lib d) (the_routing lib d) s (drivers d)
          [0..<length (drivers d)] [] =
        Some (map (\<lambda>v. tagged (drivers d ! v) (map (stop_at (the_manager lib d) s) (paths v)))
                (filter (\<lambda>v. length (paths v) > 2) [0..<length (drivers d)]))"
    by simp
  with assms(1) show ?thesis
    by (simp add: optimize_def tagged_def)
qed

theorem unused_vehicles_dropped_witness:
  "solve ex_lib ex_payload = Found ex_solution
   \<and> route_of (the_routing ex_lib ex_payload) ex_solution
         (Start (the_routing ex_lib ex_payload) 0) (ex_paths 0)
   \<and> route_of (the_routing ex_lib ex_payload) ex_solution
         (Start (the_routing ex_lib ex_payload) 1) (ex_paths 1)
   \<and> length (ex_paths 1) = 2
   \<and> optimize ex_lib ex_payload =
       Some (Success
         [\<lparr>driver_id = ''d1'', driver_name = ''Ada'', driver_phone = ''555-0101'',
           route = [\<lparr>node = 0, arrival_time = 0\<rparr>, \<lparr>node = 1, arrival_time = 100\<rparr>,
                    \<lparr>node = 2, arrival_time = 600\<rparr>, \<lparr>node = 0, arrival_time = 600\<rparr>]\<rparr>])"
proof -
  have f: "solve ex_lib ex_payload = Found ex_solution"
    by (simp add: solve_def ex_lib_def)
  have rt: "the_routing ex_lib ex_payload = ex_routing"
    by (simp add: the_routing_def ex_lib_def)
  have mg: "the_manager ex_lib ex_payload = ex_manager"
    by (simp add: the_manager_def ex_lib_def)
  have p: "\<forall>v < length (drivers ex_payload).
        route_of (the_routing ex_lib ex_payload) ex_solution
          (Start (the_routing ex_lib ex_payload) v) (ex_paths v)"
    using ex_routes by (simp add: rt)
  have dr: "drivers ex_payload = [ex_driver1, ex_driver2]"
    by (simp add: ex_payload_def)
  have two: "[0..<length (drivers ex_payload)] = [0, 1]"
    by (simp add: dr upt_rec)
  from p have p0: "route_of (the_routing ex_lib ex_payload) ex_solution
         (Start (the_routing ex_lib ex_payload) 0) (ex_paths 0)"
    and p1: "route_of (the_routing ex_lib ex_payload) ex_solution
         (Start (the_routing ex_lib ex_payload) 1) (ex_paths 1)"
    by (simp_all add: dr)
  from unused_vehicles_dropped [OF f p] f p0 p1 show ?thesis
    by (simp add: two mg dr ex_paths_def stop_at_def ex_manager_def ex_solution_def
        ex_driver1_def)
qed

section \<open>Time budget and pickup tolerance\<close>

text \<open>
  Claim C9, as the handler has it. The search is always started with a time limit of 30
  seconds, the window posted for every job's pickup index is always the pickup time minus
  and plus 900 seconds, and the keys of the request that the handler does not read change
  nothing in its answer: there is no input that sets either value.
\<close>

theorem budget_and_tolerance_fixed:
  "solve lib d =
     SolveWithParameters lib (build_model (the_manager lib d) (the_routing lib d) d)
       \<lparr>first_solution = PATH_CHEAPEST_ARC, metaheuristic = GUIDED_LOCAL_SEARCH,
        time_limit_seconds = 30\<rparr>
   \<and> (\<forall>j \<in> set (jobs d).
        SetRange (NodeToIndex m (pickup_node j)) (pickup_time j - 900) (pickup_time j + 900)
          \<in> set (build_model m r d))
   \<and> optimize lib (d\<lparr>other_keys := ks\<rparr>) = optimize lib d"
proof (intro conjI ballI)
  show "solve lib d =
     SolveWithParameters lib (build_model (the_manager lib d) (the_routing lib d) d)
       \<lparr>first_solution = PATH_CHEAPEST_ARC, metaheuristic = GUIDED_LOCAL_SEARCH,
        time_limit_seconds = 30\<rparr>"
    by (simp add: solve_def search_params_def)
next
  fix j
  assume j: "j \<in> set (jobs d)"
  have "SetRange (NodeToIndex m (pickup_node j)) (pickup_time j - 900) (pickup_time j + 900)
          \<in> set (job_calls m j)"
    by (simp add: job_calls_def Let_def)
  with j show "SetRange (NodeToIndex m (pickup_node j)) (pickup_time j - 900) (pickup_time j + 900)
                 \<in> set (build_model m r d)"
    by (blast intro: job_calls_in_model)
next
  have "build_model m' r' (d\<lparr>other_keys := ks\<rparr>) = build_model m' r' d" for m' r'
    by (simp add: build_model_def)
  then show "optimize lib (d\<lparr>other_keys := ks\<rparr>) = optimize lib d"
    by (simp add: optimize_def solve_def the_manager_def the_routing_def
        cong: solver_outcome.case_cong)
qed

theorem budget_and_tolerance_fixed_witness:
  "SetRange 1 100 1900 \<in> set (build_model ex_manager ex_routing ex_payload)
   \<and> optimize ex_lib (ex_payload\<lparr>other_keys := []\<rparr>) = optimize ex_lib ex_payload"
  using budget_and_tolerance_fixed [of ex_lib ex_payload ex_manager ex_routing "[]"]
  by (simp add: ex_payload_def ex_job_def ex_manager_def)

text \<open>
  A request that asks for a budget of 60 seconds and a tolerance of 300 seconds in two
  further keys: the search is still started with 30 seconds, and the window posted for the
  pickup at time 1000 is still from 100 to 1900, not from 700 to 1300.
\<close>

theorem budget_and_tolerance_counterexample:
  "other_keys ex_payload = [(''time_limit'', 60), (''pickup_tolerance'', 300)]
   \<and> time_limit_seconds search_params = 30
   \<and> time_limit_seconds search_params \<noteq> 60
   \<and> SetRange 1 100 1900 \<in> set (build_model ex_manager ex_routing ex_payload)
   \<and> SetRange 1 700 1300 \<notin> set (build_model ex_manager ex_routing ex_payload)"
  unfolding ex_model
  by (simp add: ex_payload_def search_params_def)

section \<open>The demand of a shared node\<close>

text \<open>
  Claim C10. When a node occurs in several jobs, the demand the capacity callback reports
  for an index of that node is that of the first job of the list having the node as its
  pickup or dropoff node: its passenger count when the node is that job's pickup node, the
  negated count when it is only its dropoff node. The jobs after it have no influence:
  the value is the same as with the list cut after that job.
\<close>

theorem demand_callback_first_match:
  assumes "\<forall>j \<in> set pre. IndexToNode m from_index \<noteq> pickup_node j
                        \<and> IndexToNode m from_index \<noteq> dropoff_node j"
    and "IndexToNode m from_index = pickup_node jb \<or> IndexToNode m from_index = dropoff_node jb"
  shows "demand_callback m (pre @ jb # post) from_index =
           (if IndexToNode m from_index = pickup_node jb then passengers jb else - passengers jb)
         \<and> demand_callback m (pre @ jb # post) from_index = demand_callback m (pre @ [jb]) from_index"
  using assms by (auto simp add: demand_callback_def demand_loop_skip)

theorem demand_callback_first_match_witness:
  "demand_callback ex_manager ex_shared_jobs 2 = - 3
   \<and> demand_callback ex_manager ex_shared_jobs 2 = demand_callback ex_manager (take 2 ex_shared_jobs) 2"
  using demand_callback_first_match
    [of "[\<lparr>pickup_node = 5, dropoff_node = 6, passengers = 1, pickup_time = 1000\<rparr>]"
        ex_manager 2
        "\<lparr>pickup_node = 1, dropoff_node = 2, passengers = 3, pickup_time = 2000\<rparr>"
        "[\<lparr>pickup_node = 2, dropoff_node = 3, passengers = 2, pickup_time = 3000\<rparr>]"]
  by (simp add: ex_shared_jobs_def ex_manager_def)

end
